theory Spec2Isabelle
  imports Main "HOL-Library.AList" "HOL-Library.Sublist"
begin

section \<open>Python strings\<close>

text \<open>
  A string is a list of characters, each standing for one code point below 256.
  \<open>isspace\<close> is \<^verbatim>\<open>str.isspace\<close> on those code points, \<open>strip\<close> is
  \<^verbatim>\<open>str.strip()\<close> and \<open>lower\<close> is \<^verbatim>\<open>str.lower()\<close>.
\<close>

definition isspace :: "char \<Rightarrow> bool" where
  "isspace c =
     (let n = (of_char c :: nat)
      in (9 \<le> n \<and> n \<le> 13) \<or> (28 \<le> n \<and> n \<le> 32) \<or> n = 133 \<or> n = 160)"

definition lstrip :: "string \<Rightarrow> string" where
  "lstrip s = dropWhile isspace s"

definition rstrip :: "string \<Rightarrow> string" where
  "rstrip s = rev (dropWhile isspace (rev s))"

definition strip :: "string \<Rightarrow> string" where
  "strip s = rstrip (lstrip s)"

definition lower_char :: "char \<Rightarrow> char" where
  "lower_char c =
     (let n = (of_char c :: nat)
      in if (65 \<le> n \<and> n \<le> 90) \<or> (192 \<le> n \<and> n \<le> 222 \<and> n \<noteq> 215)
         then char_of (n + 32) else c)"

definition lower :: "string \<Rightarrow> string" where
  "lower s = map lower_char s"

text \<open>\<^verbatim>\<open>s.split('\n')\<close> and \<^verbatim>\<open>'\n'.join(ls)\<close>.\<close>

fun split_lines :: "string \<Rightarrow> string list" where
  "split_lines [] = [[]]"
| "split_lines (c # cs) =
     (if c = CHR 0x0A then [] # split_lines cs
      else (c # hd (split_lines cs)) # tl (split_lines cs))"

fun join_lines :: "string list \<Rightarrow> string" where
  "join_lines [] = []"
| "join_lines [l] = l"
| "join_lines (l # ls) = l @ CHR 0x0A # join_lines ls"

section \<open>The configparser library\<close>

text \<open>
  The program keeps its settings in a \<^verbatim>\<open>configparser.ConfigParser()\<close>: the DEFAULT
  section and the named sections, each a dictionary from option names to raw string
  values. Option names are lower-cased (\<^verbatim>\<open>optionxform\<close>) on every access.
\<close>

type_synonym options = "string \<rightharpoonup> string"

record configparser =
  defaults :: options
  sections :: "string \<rightharpoonup> options"

definition empty_parser :: configparser where
  "empty_parser = \<lparr>defaults = Map.empty, sections = Map.empty\<rparr>"

definition has_section :: "configparser \<Rightarrow> string \<Rightarrow> bool" where
  "has_section c s = (sections c s \<noteq> None)"

text \<open>
  Exceptions. Those of configparser (subclasses of \<^verbatim>\<open>configparser.Error\<close>) come first.
  Among the others \<open>ConfigError\<close> is the program's own class, \<open>ValueError\<close>, \<open>KeyError\<close>
  and \<open>Abort\<close> come from the interpreter and from click, and \<open>LibraryError e\<close> is an
  exception \<open>e\<close> raised inside the device-control library.
\<close>

datatype configparser_error =
    NoSectionError
  | NoOptionError
  | InterpolationDepthError
  | InterpolationSyntaxError
  | InterpolationMissingOptionError

datatype 'e error =
    ConfigError
  | ValueError
  | KeyError string
  | ConfigParserError configparser_error
  | Abort
  | LibraryError 'e

subsection \<open>Basic interpolation\<close>

text \<open>
  \<open>match_key cs\<close> matches the pattern \<^verbatim>\<open>%\(([^)]+)\)s\<close> where \<open>cs\<close> is the text after
  the opening \<^verbatim>\<open>%(\<close>, and returns the name between the parentheses.
\<close>

definition match_key :: "string \<Rightarrow> string option" where
  "match_key cs =
     (let name = takeWhile (\<lambda>c. c \<noteq> CHR 0x29) cs;
          rest = dropWhile (\<lambda>c. c \<noteq> CHR 0x29) cs
      in if name \<noteq> [] \<and> take 2 rest = [CHR 0x29, CHR ''s''] then Some name else None)"

text \<open>
  \<^verbatim>\<open>BasicInterpolation.before_set\<close>: the value with every \<^verbatim>\<open>%%\<close> removed and then
  every reference \<^verbatim>\<open>%(name)s\<close> removed must contain no percent sign.
\<close>

fun drop_escaped :: "string \<Rightarrow> string" where
  "drop_escaped (a # b # cs) =
     (if a = CHR ''%'' \<and> b = CHR ''%'' then drop_escaped cs else a # drop_escaped (b # cs))"
| "drop_escaped cs = cs"

fun drop_refs :: "string \<Rightarrow> string" where
  "drop_refs [] = []"
| "drop_refs (c # cs) =
     (if c = CHR ''%'' \<and> take 1 cs = [CHR 0x28] then
        (case match_key (tl cs) of
           Some name \<Rightarrow> drop_refs (drop (length name + 3) cs)
         | None \<Rightarrow> c # drop_refs cs)
      else c # drop_refs cs)"

definition before_set :: "string \<Rightarrow> bool" where
  "before_set v = (CHR ''%'' \<notin> set (drop_refs (drop_escaped v)))"

text \<open>
  \<^verbatim>\<open>BasicInterpolation._interpolate_some\<close>. The first argument counts the nesting
  depth still allowed (\<^verbatim>\<open>MAX_INTERPOLATION_DEPTH\<close> is 10), the second is the section's
  options over the defaults.
\<close>

fun interpolate_some :: "nat \<Rightarrow> options \<Rightarrow> string \<Rightarrow> configparser_error + string" where
  "interpolate_some 0 m rest = Inl InterpolationDepthError"
| "interpolate_some (Suc n) m [] = Inr []"
| "interpolate_some (Suc n) m (c # cs) =
     (if c \<noteq> CHR ''%'' then map_sum id ((#) c) (interpolate_some (Suc n) m cs)
      else if take 1 cs = [CHR ''%''] then
        map_sum id ((#) CHR ''%'') (interpolate_some (Suc n) m (tl cs))
      else if take 1 cs = [CHR 0x28] then
        (case match_key (tl cs) of
           None \<Rightarrow> Inl InterpolationSyntaxError
         | Some name \<Rightarrow>
            (case m (lower name) of
               None \<Rightarrow> Inl InterpolationMissingOptionError
             | Some v \<Rightarrow>
                (case (if CHR ''%'' \<in> set v then interpolate_some n m v else Inr v) of
                   Inl e \<Rightarrow> Inl e
                 | Inr a \<Rightarrow>
                    map_sum id ((@) a)
                      (interpolate_some (Suc n) m (drop (length name + 3) cs)))))
      else Inl InterpolationSyntaxError)"

text \<open>\<^verbatim>\<open>config.get(section, option)\<close>.\<close>

definition config_get :: "configparser \<Rightarrow> string \<Rightarrow> string \<Rightarrow> configparser_error + string" where
  "config_get c s k =
     (case sections c s of
        None \<Rightarrow> Inl NoSectionError
      | Some opts \<Rightarrow>
         (let d = defaults c ++ opts
          in case d (lower k) of
               None \<Rightarrow> Inl NoOptionError
             | Some v \<Rightarrow> interpolate_some 10 d v))"

text \<open>
  \<^verbatim>\<open>config[s] = {k1: v1, ...}\<close> for a section \<open>s\<close> other than DEFAULT: the section is
  emptied (or created), then every option is set in turn. Setting a non-empty value
  checks it with \<open>before_set\<close> and raises \<open>ValueError\<close> when the check fails; the options
  set before stay set.
\<close>

fun set_items ::
  "string \<Rightarrow> (string \<times> string) list \<Rightarrow> configparser \<Rightarrow> ('e error + unit) \<times> configparser" where
  "set_items s [] c = (Inr (), c)"
| "set_items s ((k, v) # kvs) c =
     (if v \<noteq> [] \<and> \<not> before_set v then (Inl ValueError, c)
      else set_items s kvs
        (c\<lparr>sections := (sections c)(s \<mapsto>
             (case sections c s of None \<Rightarrow> Map.empty | Some opts \<Rightarrow> opts)(lower k \<mapsto> v))\<rparr>))"

definition setitem ::
  "string \<Rightarrow> (string \<times> string) list \<Rightarrow> configparser \<Rightarrow> ('e error + unit) \<times> configparser" where
  "setitem s kvs c = set_items s kvs (c\<lparr>sections := (sections c)(s \<mapsto> Map.empty)\<rparr>)"

subsection \<open>The configuration file\<close>

text \<open>
  The file is kept in parsed form. It holds what \<^verbatim>\<open>config.write\<close> put there: the
  defaults and the sections with their raw values, under lower-case option names. \<open>ini_value v\<close> is the value that \<^verbatim>\<open>config.read\<close> gets back from the
  text written for \<open>v\<close>: the first line stripped, every further line stripped and kept
  unless it starts with a comment sign, joined again, and stripped at the right.
  (Values are taken not to hold a bare carriage return.)
  \<open>read_ini f c\<close> is \<^verbatim>\<open>c.read(path)\<close> for a file with content \<open>f\<close>: the sections of the
  file are merged into those of \<open>c\<close>.
\<close>

definition is_comment :: "string \<Rightarrow> bool" where
  "is_comment s = (case s of [] \<Rightarrow> False | c # _ \<Rightarrow> c = CHR ''#'' \<or> c = CHR '';'')"

definition ini_value :: "string \<Rightarrow> string" where
  "ini_value v =
     (let ls = split_lines v
      in rstrip (join_lines
           (strip (hd ls) # map strip (filter (\<lambda>l. \<not> is_comment (strip l)) (tl ls)))))"

definition read_options :: "options \<Rightarrow> options \<Rightarrow> options" where
  "read_options old new = old ++ (map_option ini_value \<circ> new)"

definition read_ini :: "configparser \<Rightarrow> configparser \<Rightarrow> configparser" where
  "read_ini f c =
     \<lparr>defaults = read_options (defaults c) (defaults f),
      sections = (\<lambda>s. case sections f s of
                        None \<Rightarrow> sections c s
                      | Some new \<Rightarrow>
                         Some (read_options
                                (case sections c s of None \<Rightarrow> Map.empty | Some old \<Rightarrow> old)
                                new))\<rparr>"

section \<open>The device-control library and the terminal\<close>

text \<open>
  The library calls the program makes are recorded in order, each with its arguments.
  What the library does with a call is not part of the program: whether a call raises,
  what \<^verbatim>\<open>status()\<close> returns and which strings \<^verbatim>\<open>float\<close> accepts are parameters.
\<close>

datatype dp_value = VBool bool | VInt int

datatype 'f call =
    OutletDevice string string string
  | SetVersion 'f
  | SetValue nat dp_value
  | Status

text \<open>The dictionary returned by \<^verbatim>\<open>status()\<close>: a key that is missing is \<open>None\<close>.\<close>

record 'v status_data =
  devId :: "string option"
  dps :: "(string \<times> 'v) list option"

text \<open>What the program writes: \<^verbatim>\<open>click.echo\<close>, prompts, and \<^verbatim>\<open>logger.info\<close>.\<close>

datatype 'v event =
    Echo string
  | Prompt string
  | InfoOn
  | InfoOnBrightness int
  | InfoOff
  | InfoStatus string "(string \<times> 'v) list"

text \<open>
  The state of a run: the configuration file (\<open>None\<close> when it does not exist), the
  module's \<^verbatim>\<open>config\<close> object, the lines still to be typed at the terminal, what was
  written so far, and the library calls made so far.
\<close>

record ('f, 'v) world =
  config_file :: "configparser option"
  config :: configparser
  stdin :: "string list"
  out :: "'v event list"
  calls :: "'f call list"

record ('e, 'f, 'v) env =
  py_float :: "string \<Rightarrow> 'f option"
  raises :: "'f call list \<Rightarrow> 'f call \<Rightarrow> 'e option"
  status_reply :: "'f call list \<Rightarrow> 'v status_data"
  rerun_configure :: "('f, 'v) world \<Rightarrow> ('e error + unit) \<times> ('f, 'v) world"

text \<open>A statement either returns a value or raises; the state it leaves is kept either way.\<close>

definition andthen ::
  "('s \<Rightarrow> ('x + 'a) \<times> 's) \<Rightarrow> ('a \<Rightarrow> 's \<Rightarrow> ('x + 'b) \<times> 's) \<Rightarrow> 's \<Rightarrow> ('x + 'b) \<times> 's" where
  "andthen f g s = (case f s of (Inl x, s') \<Rightarrow> (Inl x, s') | (Inr a, s') \<Rightarrow> g a s')"

definition echo :: "string \<Rightarrow> ('f, 'v) world \<Rightarrow> ('e error + unit) \<times> ('f, 'v) world" where
  "echo msg w = (Inr (), w\<lparr>out := out w @ [Echo msg]\<rparr>)"

definition info :: "'v event \<Rightarrow> ('f, 'v) world \<Rightarrow> ('e error + unit) \<times> ('f, 'v) world" where
  "info ev w = (Inr (), w\<lparr>out := out w @ [ev]\<rparr>)"

text \<open>
  \<^verbatim>\<open>click.prompt(text)\<close> asks again while the answer is empty and aborts at the end of
  the input. The prompt is recorded once.
\<close>

fun read_answer :: "string list \<Rightarrow> (string \<times> string list) option" where
  "read_answer [] = None"
| "read_answer (l # ls) = (if l = [] then read_answer ls else Some (l, ls))"

definition prompt :: "string \<Rightarrow> ('f, 'v) world \<Rightarrow> ('e error + string) \<times> ('f, 'v) world" where
  "prompt text w =
     (case read_answer (stdin w) of
        None \<Rightarrow> (Inl Abort, w\<lparr>stdin := [], out := out w @ [Prompt text]\<rparr>)
      | Some (a, rest) \<Rightarrow> (Inr a, w\<lparr>stdin := rest, out := out w @ [Prompt text]\<rparr>))"

definition lib_call ::
  "('e, 'f, 'v) env \<Rightarrow> 'f call \<Rightarrow> ('f, 'v) world \<Rightarrow> ('e error + unit) \<times> ('f, 'v) world" where
  "lib_call env c w =
     (case raises env (calls w) c of
        None \<Rightarrow> (Inr (), w\<lparr>calls := calls w @ [c]\<rparr>)
      | Some e \<Rightarrow> (Inl (LibraryError e), w\<lparr>calls := calls w @ [c]\<rparr>))"

section \<open>floodlights.py\<close>

subsection \<open>Configuration\<close>

text \<open>\<^verbatim>\<open>config.read(config_file_path)\<close>: a file that cannot be opened is ignored.\<close>

definition config_read :: "('f, 'v) world \<Rightarrow> ('f, 'v) world" where
  "config_read w = (case config_file w of None \<Rightarrow> w | Some f \<Rightarrow> w\<lparr>config := read_ini f (config w)\<rparr>)"

text \<open>
  The body shared by both \<^verbatim>\<open>configure\<close> functions (lines 25 to 35 and 124 to 132):
  assign the section, write the file, report.
\<close>

definition configure ::
  "string \<Rightarrow> string \<Rightarrow> string \<Rightarrow> string \<Rightarrow> ('f, 'v) world \<Rightarrow> ('e error + unit) \<times> ('f, 'v) world" where
  "configure device_id device_ip device_key device_version w =
     (case setitem ''Floodlight''
             [(''DEVICE_ID'', device_id), (''DEVICE_IP'', device_ip),
              (''DEVICE_KEY'', device_key), (''DEVICE_VERSION'', device_version)] (config w) of
        (Inl e, c) \<Rightarrow> (Inl e, w\<lparr>config := c\<rparr>)
      | (Inr _, c) \<Rightarrow>
          echo ''Configuration saved successfully!'' (w\<lparr>config := c, config_file := Some c\<rparr>))"

text \<open>The first \<^verbatim>\<open>configure()\<close> (line 18), which prompts for the four values.\<close>

definition configure_prompting :: "('f, 'v) world \<Rightarrow> ('e error + unit) \<times> ('f, 'v) world" where
  "configure_prompting =
     andthen (prompt ''Enter Device ID'') (\<lambda>device_id.
     andthen (prompt ''Enter Device IP'') (\<lambda>device_ip.
     andthen (prompt ''Enter Device Key'') (\<lambda>device_key.
     andthen (prompt ''Enter Device Version'') (\<lambda>device_version.
       configure device_id device_ip device_key device_version))))"

definition unconfigured :: "('f, 'v) world \<Rightarrow> bool" where
  "unconfigured w = (config_file w = None \<or> \<not> has_section (config w) ''Floodlight'')"

text \<open>Lines 9 to 39, run when the module is loaded.\<close>

definition startup :: "('f, 'v) world \<Rightarrow> ('e error + unit) \<times> ('f, 'v) world" where
  "startup w =
     (let w1 = config_read (w\<lparr>config := empty_parser\<rparr>)
      in if unconfigured w1 then configure_prompting w1 else (Inr (), w1))"

definition check_config :: "('f, 'v) world \<Rightarrow> ('e error + unit) \<times> ('f, 'v) world" where
  "check_config w = (if unconfigured w then (Inl ConfigError, w) else (Inr (), w))"

subsection \<open>FloodlightController\<close>

record controller =
  device_id :: string
  device_ip :: string
  device_key :: string
  device_version :: string

definition get_option :: "string \<Rightarrow> ('f, 'v) world \<Rightarrow> ('e error + string) \<times> ('f, 'v) world" where
  "get_option k w = (map_sum ConfigParserError id (config_get (config w) ''Floodlight'' k), w)"

text \<open>Lines 55 to 59 of \<^verbatim>\<open>__init__\<close>: the check and the four attributes.\<close>

definition init_attributes ::
  "('f, 'v) world \<Rightarrow> ('e error + controller) \<times> ('f, 'v) world" where
  "init_attributes =
     andthen check_config (\<lambda>_.
     andthen (get_option ''DEVICE_ID'') (\<lambda>i.
     andthen (get_option ''DEVICE_IP'') (\<lambda>a.
     andthen (get_option ''DEVICE_KEY'') (\<lambda>k.
     andthen (get_option ''DEVICE_VERSION'') (\<lambda>v.
       Pair (Inr \<lparr>device_id = i, device_ip = (if a = [] then ''Auto'' else a),
                   device_key = k, device_version = v\<rparr>))))))"

text \<open>\<^verbatim>\<open>__init__\<close>: the attributes, then the device client and its protocol version.\<close>

definition init ::
  "('e, 'f, 'v) env \<Rightarrow> ('f, 'v) world \<Rightarrow> ('e error + controller) \<times> ('f, 'v) world" where
  "init env =
     andthen init_attributes (\<lambda>self.
     andthen (lib_call env (OutletDevice (device_id self) (device_ip self) (device_key self))) (\<lambda>_.
     case py_float env (device_version self) of
       None \<Rightarrow> Pair (Inl ValueError)
     | Some x \<Rightarrow> andthen (lib_call env (SetVersion x)) (\<lambda>_. Pair (Inr self))))"

text \<open>\<^verbatim>\<open>on(self, brightness=None)\<close>: \<^verbatim>\<open>if brightness\<close> holds for an integer other than 0.\<close>

definition on ::
  "('e, 'f, 'v) env \<Rightarrow> int option \<Rightarrow> ('f, 'v) world \<Rightarrow> ('e error + unit) \<times> ('f, 'v) world" where
  "on env brightness =
     (case brightness of
        Some n \<Rightarrow>
          if n \<noteq> 0 then
            andthen (lib_call env (SetValue 20 (VBool True))) (\<lambda>_.
            andthen (lib_call env (SetValue 22 (VInt n))) (\<lambda>_.
              info (InfoOnBrightness n)))
          else
            andthen (lib_call env (SetValue 20 (VBool True))) (\<lambda>_. info InfoOn)
      | None \<Rightarrow> andthen (lib_call env (SetValue 20 (VBool True))) (\<lambda>_. info InfoOn))"

definition mapping :: "(string \<times> string) list" where
  "mapping =
     [(''20'', ''Power State''), (''21'', ''Mode''), (''22'', ''Brightness''),
      (''25'', ''Unknown''), (''26'', ''Unknown'')]"

text \<open>\<^verbatim>\<open>mapping.get(key, f"Unknown Key {key}")\<close>.\<close>

definition mapped_key :: "string \<Rightarrow> string" where
  "mapped_key k = (case map_of mapping k of Some l \<Rightarrow> l | None \<Rightarrow> ''Unknown Key '' @ k)"

text \<open>
  \<^verbatim>\<open>map_dps_values\<close>: dictionaries are lists of items in insertion order, and
  \<^verbatim>\<open>output[mapped_key] = value\<close> replaces the value of a key already there or appends.
\<close>

definition map_dps_values :: "(string \<times> 'v) list \<Rightarrow> (string \<times> 'v) list" where
  "map_dps_values d = fold (\<lambda>(k, v) output. AList.update (mapped_key k) v output) d []"

definition status ::
  "('e, 'f, 'v) env \<Rightarrow> ('f, 'v) world \<Rightarrow> ('e error + 'v status_data) \<times> ('f, 'v) world" where
  "status env =
     andthen (lib_call env Status) (\<lambda>_ w.
       let data = status_reply env (calls w)
       in case dps data of
            None \<Rightarrow> (Inl (KeyError ''dps''), w)
          | Some d \<Rightarrow>
             (case devId data of
                None \<Rightarrow> (Inl (KeyError ''devId''), w)
              | Some i \<Rightarrow> andthen (info (InfoStatus i (map_dps_values d))) (\<lambda>_. Pair (Inr data)) w))"

definition off ::
  "('e, 'f, 'v) env \<Rightarrow> ('f, 'v) world \<Rightarrow> ('e error + unit) \<times> ('f, 'v) world" where
  "off env = andthen (lib_call env (SetValue 20 (VBool False))) (\<lambda>_. info InfoOff)"

subsection \<open>The command line\<close>

text \<open>
  The arguments as click parses them: an option that was not given is \<open>None\<close>. The
  \<^verbatim>\<open>--brightness\<close> option has the default 1000; the options of \<^verbatim>\<open>configure\<close> prompt
  when they are not given. The group \<^verbatim>\<open>cli\<close> runs the function of the command and lets
  what it raises through; a run that returns \<open>Inr ()\<close> is one that click ends with exit
  status 0.
\<close>

datatype command =
    On "int option"
  | Off
  | StatusCmd
  | Configure "string option" "string option" "string option" "string option"

definition option_or_prompt ::
  "string \<Rightarrow> string option \<Rightarrow> ('f, 'v) world \<Rightarrow> ('e error + string) \<times> ('f, 'v) world" where
  "option_or_prompt text given = (case given of None \<Rightarrow> prompt text | Some v \<Rightarrow> Pair (Inr v))"

definition cli ::
  "('e, 'f, 'v) env \<Rightarrow> command \<Rightarrow> ('f, 'v) world \<Rightarrow> ('e error + unit) \<times> ('f, 'v) world" where
  "cli env cmd =
     (case cmd of
        On brightness \<Rightarrow>
          andthen (init env) (\<lambda>_.
            on env (Some (case brightness of None \<Rightarrow> 1000 | Some n \<Rightarrow> n)))
      | StatusCmd \<Rightarrow> andthen (init env) (\<lambda>_. andthen (status env) (\<lambda>_. Pair (Inr ())))
      | Off \<Rightarrow> andthen (init env) (\<lambda>_. off env)
      | Configure i a k v \<Rightarrow>
          andthen (option_or_prompt ''Enter Device ID'' i) (\<lambda>device_id.
          andthen (option_or_prompt ''Enter Device IP'' a) (\<lambda>device_ip.
          andthen (option_or_prompt ''Enter Device Key'' k) (\<lambda>device_key.
          andthen (option_or_prompt ''Enter Device Version'' v) (\<lambda>device_version.
            configure device_id device_ip device_key device_version)))))"

text \<open>
  Lines 139 to 146. In the handler \<^verbatim>\<open>configure\<close> is the click command of line 122,
  run on the arguments of the process: what that does is the parameter
  \<open>rerun_configure\<close>.
\<close>

definition main ::
  "('e, 'f, 'v) env \<Rightarrow> command \<Rightarrow> ('f, 'v) world \<Rightarrow> ('e error + unit) \<times> ('f, 'v) world" where
  "main env cmd w =
     (case cli env cmd (config_read w) of
        (Inl ConfigError, w1) \<Rightarrow>
          andthen (echo ''Configuration file is missing or malformed. Please reconfigure the app.'') (\<lambda>_.
          andthen (rerun_configure env) (\<lambda>_.
            echo ''Please rerun the original command.'')) w1
      | r \<Rightarrow> r)"

text \<open>One run of the program: the module is loaded, then the main block runs.\<close>

definition program ::
  "('e, 'f, 'v) env \<Rightarrow> command \<Rightarrow> ('f, 'v) world \<Rightarrow> ('e error + unit) \<times> ('f, 'v) world" where
  "program env cmd = andthen startup (\<lambda>_. main env cmd)"

section \<open>Notions used in the statements\<close>

text \<open>
  The Floodlight section as \<^verbatim>\<open>configure\<close> leaves it: the four options and nothing else.
\<close>

definition floodlight_section :: "string \<Rightarrow> string \<Rightarrow> string \<Rightarrow> string \<Rightarrow> options" where
  "floodlight_section i a k v =
     [''device_id'' \<mapsto> i, ''device_ip'' \<mapsto> a, ''device_key'' \<mapsto> k, ''device_version'' \<mapsto> v]"

text \<open>
  A plain value: no percent sign, no line break, no white space at either end. Such a
  value means itself to the interpolation and is stored in the text of the file as it is.
\<close>

definition plain :: "string \<Rightarrow> bool" where
  "plain v =
     (CHR ''%'' \<notin> set v \<and> CHR 0x0A \<notin> set v \<and> CHR 0x0D \<notin> set v \<and>
      (case v of [] \<Rightarrow> True | c # _ \<Rightarrow> \<not> isspace c \<and> \<not> isspace (last v)))"

text \<open>The commands that talk to the device.\<close>

definition is_device_command :: "command \<Rightarrow> bool" where
  "is_device_command cmd = (case cmd of Configure _ _ _ _ \<Rightarrow> False | _ \<Rightarrow> True)"

text \<open>
  The state in which a new process reaches \<^verbatim>\<open>cli()\<close> when the start-up code did not have
  to configure: the file was read at line 16 and again at line 140.
\<close>

definition loaded :: "('f, 'v) world \<Rightarrow> ('f, 'v) world" where
  "loaded w = config_read (config_read (w\<lparr>config := empty_parser\<rparr>))"

text \<open>
  Notions for following a run. An error is local when it is neither \<open>ConfigError\<close> nor
  an exception of the library. A step is local at a state when it makes no library call
  and raises local errors only. \<open>quiet env h cs\<close>: none of the calls \<open>cs\<close>, made in turn
  after the calls \<open>h\<close>, raises. A step is faithful at a state when it does not raise
  \<open>ConfigError\<close> and the calls it adds are quiet, except that it may end in the library's
  exception \<open>e\<close> exactly when its last call raised \<open>e\<close>.
\<close>

definition local_error :: "'e error \<Rightarrow> bool" where
  "local_error x = (x \<noteq> ConfigError \<and> (\<forall>e. x \<noteq> LibraryError e))"

definition local_at ::
  "(('f, 'v) world \<Rightarrow> ('e error + 'a) \<times> ('f, 'v) world) \<Rightarrow> ('f, 'v) world \<Rightarrow> bool" where
  "local_at f w = (calls (snd (f w)) = calls w \<and> (\<forall>x. fst (f w) = Inl x \<longrightarrow> local_error x))"

fun quiet :: "('e, 'f, 'v) env \<Rightarrow> 'f call list \<Rightarrow> 'f call list \<Rightarrow> bool" where
  "quiet env h [] = True"
| "quiet env h (c # cs) = (raises env h c = None \<and> quiet env (h @ [c]) cs)"

definition faithful_at ::
  "('e, 'f, 'v) env \<Rightarrow> (('f, 'v) world \<Rightarrow> ('e error + 'a) \<times> ('f, 'v) world) \<Rightarrow> ('f, 'v) world \<Rightarrow> bool" where
  "faithful_at env f w =
     (fst (f w) \<noteq> Inl ConfigError \<and>
      (\<exists>cs. calls (snd (f w)) = calls w @ cs \<and>
         (case fst (f w) of
            Inl (LibraryError e) \<Rightarrow>
              cs \<noteq> [] \<and> quiet env (calls w) (butlast cs) \<and>
              raises env (calls w @ butlast cs) (last cs) = Some e
          | _ \<Rightarrow> quiet env (calls w) cs)))"

section \<open>A stand-in for the libraries\<close>

text \<open>
  To run the program on concrete inputs: \<open>demo_env\<close> is a library in which no call
  raises, \<^verbatim>\<open>float\<close> knows the protocol versions 3.3 and 3.4 (kept in tenths) and the
  device reports five data points; in \<open>timeout_env\<close> the status request raises.
  \<open>demo_world\<close> is a first run: no configuration file, four answers waiting.
\<close>

definition demo_env :: "(string, int, int) env" where
  "demo_env =
     \<lparr>py_float = (\<lambda>s. if s = ''3.3'' then Some 33 else if s = ''3.4'' then Some 34 else None),
      raises = (\<lambda>_ _. None),
      status_reply = (\<lambda>_. \<lparr>devId = Some ''bf1234'',
         dps = Some [(''20'', 1), (''22'', 500), (''25'', 0), (''26'', 7), (''101'', 3)]\<rparr>),
      rerun_configure = (\<lambda>w. (Inr (), w))\<rparr>"

definition timeout_env :: "(string, int, int) env" where
  "timeout_env = demo_env\<lparr>raises := (\<lambda>_ c. if c = Status then Some ''timeout'' else None)\<rparr>"

definition demo_world :: "(int, int) world" where
  "demo_world =
     \<lparr>config_file = None, config = empty_parser,
      stdin = [''bf1234'', ''192.168.1.20'', ''0123456789abcdef'', ''3.3''],
      out = [], calls = []\<rparr>"

text \<open>A world whose file and \<^verbatim>\<open>config\<close> object hold the given four settings.\<close>

definition stored :: "string \<Rightarrow> string \<Rightarrow> string \<Rightarrow> string \<Rightarrow> configparser" where
  "stored i a k v =
     \<lparr>defaults = Map.empty, sections = [''Floodlight'' \<mapsto> floodlight_section i a k v]\<rparr>"

definition configured_world :: "string \<Rightarrow> string \<Rightarrow> string \<Rightarrow> string \<Rightarrow> (int, int) world" where
  "configured_world i a k v =
     \<lparr>config_file = Some (stored i a k v), config = stored i a k v,
      stdin = [], out = [], calls = []\<rparr>"

text \<open>A configured world whose Floodlight section holds older values and one more option.\<close>

definition stale_world :: "(int, int) world" where
  "stale_world =
     (configured_world ''old-id'' ''10.0.0.9'' ''oldkey'' ''3.1'')
       \<lparr>config := \<lparr>defaults = Map.empty, sections = [''Floodlight'' \<mapsto>
           (floodlight_section ''old-id'' ''10.0.0.9'' ''oldkey'' ''3.1'')(''note'' \<mapsto> ''spare'')]\<rparr>\<rparr>"

section \<open>Relabelling the data points\<close>

lemma fold_update_map_of:
  "map_of (fold (\<lambda>(k, v) output. AList.update (f k) v output) d acc) =
     map_of acc ++ map_of (rev (map (\<lambda>(k, v). (f k, v)) d))"
proof (induction d arbitrary: acc)
  case Nil
  then show ?case by simp
next
  case (Cons p d)
  obtain k v where p: "p = (k, v)" by (cases p)
  have "map_of (AList.update (f k) v acc) = map_of acc ++ [f k \<mapsto> v]"
    by (simp add: update_conv')
  then show ?case
    by (simp add: p Cons.IH del: fun_upd_apply)
qed

lemma fold_update_distinct:
  "distinct (map fst acc) \<Longrightarrow>
   distinct (map fst (fold (\<lambda>(k, v) output. AList.update (f k) v output) d acc))"
proof (induction d arbitrary: acc)
  case Nil
  then show ?case by simp
next
  case (Cons p d)
  obtain k v where p: "p = (k, v)" by (cases p)
  show ?case
    using Cons.prems by (simp add: p Cons.IH distinct_update)
qed

lemma map_dps_values_map_of:
  "map_of (map_dps_values d) = map_of (rev (map (\<lambda>(k, v). (mapped_key k, v)) d))"
  by (simp add: map_dps_values_def fold_update_map_of)

lemma map_dps_values_distinct: "distinct (map fst (map_dps_values d))"
  by (simp add: map_dps_values_def fold_update_distinct)

lemma map_dps_values_keys: "fst ` set (map_dps_values d) = mapped_key ` fst ` set d"
proof -
  have "fst ` set (map_dps_values d) = dom (map_of (map_dps_values d))"
    by (simp add: dom_map_of_conv_image_fst)
  also have "\<dots> = fst ` set (rev (map (\<lambda>(k, v). (mapped_key k, v)) d))"
    by (simp only: map_dps_values_map_of dom_map_of_conv_image_fst)
  also have "\<dots> = mapped_key ` fst ` set d"
    by (force simp: image_iff)
  finally show ?thesis .
qed

lemma mapped_key_known:
  "mapped_key ''20'' = ''Power State''" "mapped_key ''21'' = ''Mode''"
  "mapped_key ''22'' = ''Brightness''" "mapped_key ''25'' = ''Unknown''"
  "mapped_key ''26'' = ''Unknown''"
  by (simp_all add: mapped_key_def mapping_def)

lemma mapped_key_unknown:
  "k \<notin> fst ` set mapping \<Longrightarrow> mapped_key k = ''Unknown Key '' @ k"
  by (simp add: mapped_key_def map_of_eq_None_iff[THEN iffD2])

lemma mapped_key_table: "(k, l) \<in> set mapping \<Longrightarrow> mapped_key k = l"
  by (auto simp: mapped_key_def mapping_def)

lemma mapped_key_Unknown_iff: "mapped_key k = ''Unknown'' \<longleftrightarrow> k = ''25'' \<or> k = ''26''"
  by (auto simp: mapped_key_def mapping_def)

lemma count_key:
  "distinct (map fst xs) \<Longrightarrow> k \<in> fst ` set xs \<Longrightarrow> length (filter (\<lambda>p. fst p = k) xs) = 1"
proof (induction xs)
  case Nil
  then show ?case by simp
next
  case (Cons x xs)
  then show ?case by (auto simp: filter_empty_conv image_iff)
qed

text \<open>
  Claim C3. For every dictionary of data points, the keys of the relabelled dictionary
  are the labels of the original keys, and each label carries the value of the last
  item with that label. Every code of the lookup table has the fixed name the table
  gives it, and a code that is not in the table gets the label \<open>Unknown Key\<close> followed
  by the code itself, so the label contains the code.
\<close>

theorem map_dps_values_relabels:
  "map_of (map_dps_values d) = map_of (rev (map (\<lambda>(k, v). (mapped_key k, v)) d))
   \<and> fst ` set (map_dps_values d) = mapped_key ` fst ` set d
   \<and> (\<forall>(k, l) \<in> set mapping. mapped_key k = l)
   \<and> (k \<notin> fst ` set mapping \<longrightarrow>
        mapped_key k = ''Unknown Key '' @ k \<and> sublist k (mapped_key k))"
proof -
  have "sublist k (''Unknown Key '' @ k)"
    by (rule suffix_imp_sublist) (rule suffixI, rule refl)
  then have "k \<notin> fst ` set mapping \<longrightarrow>
      mapped_key k = ''Unknown Key '' @ k \<and> sublist k (mapped_key k)"
    by (metis mapped_key_unknown)
  moreover have "\<forall>(k, l) \<in> set mapping. mapped_key k = l"
    using mapped_key_table by blast
  ultimately show ?thesis
    using map_dps_values_map_of[of d] map_dps_values_keys[of d] by blast
qed

theorem map_dps_values_relabels_witness:
  "fst ` set (map_dps_values [(''20'', 1::int), (''101'', 3)]) = {''Power State'', ''Unknown Key 101''}
   \<and> map_of (map_dps_values [(''20'', 1::int), (''101'', 3)]) ''Unknown Key 101'' = Some 3
   \<and> (''22'', ''Brightness'') \<in> set mapping \<and> mapped_key ''22'' = ''Brightness''
   \<and> ''101'' \<notin> fst ` set mapping
   \<and> mapped_key ''101'' = ''Unknown Key 101'' \<and> sublist ''101'' (mapped_key ''101'')"
proof -
  have out: "''101'' \<notin> fst ` set mapping"
    by (simp add: mapping_def)
  have tab: "(''22'', ''Brightness'') \<in> set mapping"
    by (simp add: mapping_def)
  note r = map_dps_values_relabels[of "[(''20'', 1::int), (''101'', 3)]" "''101''"]
  have u: "mapped_key ''101'' = ''Unknown Key '' @ ''101'' \<and> sublist ''101'' (mapped_key ''101'')"
    by (rule mp[OF r[THEN conjunct2, THEN conjunct2, THEN conjunct2] out])
  have "case (''22'', ''Brightness'') of (k, l) \<Rightarrow> mapped_key k = l"
    by (rule bspec[OF r[THEN conjunct2, THEN conjunct2, THEN conjunct1] tab])
  then have t: "mapped_key ''22'' = ''Brightness''"
    by (simp only: prod.case)
  have k20: "mapped_key ''20'' = ''Power State''"
    by (simp add: mapped_key_def mapping_def)
  have keys: "fst ` set (map_dps_values [(''20'', 1::int), (''101'', 3)]) =
      {''Power State'', ''Unknown Key 101''}"
    using r[THEN conjunct2, THEN conjunct1] u k20 by simp
  have val: "map_of (map_dps_values [(''20'', 1::int), (''101'', 3)]) ''Unknown Key 101'' = Some 3"
    using u k20 by (simp add: r[THEN conjunct1])
  have u1: "mapped_key ''101'' = ''Unknown Key 101''"
    using u by simp
  note u2 = u[THEN conjunct2]
  show ?thesis
    by (intro conjI) (rule keys val tab t out u1 u2)+
qed

text \<open>
  Claim C9. The codes 25 and 26 both get the label \<open>Unknown\<close>. So for every status
  dictionary that holds both codes (with values \<open>a\<close> and \<open>b\<close>), the relabelled dictionary
  has exactly one item labelled \<open>Unknown\<close>, its value is one of \<open>a\<close> and \<open>b\<close>, and the
  relabelled dictionary has fewer items than the original: one was dropped.
\<close>

theorem map_dps_values_unknown_collision:
  assumes "distinct (map fst d)" and "(''25'', a) \<in> set d" and "(''26'', b) \<in> set d"
  shows "mapped_key ''25'' = ''Unknown'' \<and> mapped_key ''26'' = ''Unknown''
    \<and> length (filter (\<lambda>p. fst p = ''Unknown'') (map_dps_values d)) = 1
    \<and> map_of (map_dps_values d) ''Unknown'' \<in> {Some a, Some b}
    \<and> length (map_dps_values d) < length d"
proof -
  let ?out = "map_dps_values d"
  have k: "''Unknown'' \<in> fst ` set ?out"
    unfolding map_dps_values_keys using assms(2) mapped_key_known(4) by force
  have one: "length (filter (\<lambda>p. fst p = ''Unknown'') ?out) = 1"
    using count_key[OF map_dps_values_distinct k] .
  obtain v where v: "map_of ?out ''Unknown'' = Some v"
    using k by (metis map_of_eq_None_iff not_Some_eq)
  then have "(''Unknown'', v) \<in> set (map (\<lambda>(k, v). (mapped_key k, v)) d)"
    unfolding map_dps_values_map_of by (auto dest: map_of_SomeD)
  then obtain k' where k': "(k', v) \<in> set d" "mapped_key k' = ''Unknown''"
    by auto
  then have "k' = ''25'' \<or> k' = ''26''" by (simp add: mapped_key_Unknown_iff)
  then have "v = a \<or> v = b"
    using k'(1) assms by (metis eq_key_imp_eq_value)
  then have val: "map_of ?out ''Unknown'' \<in> {Some a, Some b}" using v by auto
  have "\<not> inj_on mapped_key (fst ` set d)"
  proof
    assume "inj_on mapped_key (fst ` set d)"
    moreover have "''25'' \<in> fst ` set d" "''26'' \<in> fst ` set d" using assms by force+
    ultimately have "''25'' = ''26''"
      using mapped_key_known(4,5) by (metis inj_onD)
    then show False by simp
  qed
  then have "card (mapped_key ` fst ` set d) < card (fst ` set d)"
    by (metis List.finite_set card_image_le eq_card_imp_inj_on finite_imageI le_neq_implies_less)
  moreover have "card (fst ` set ?out) = length ?out"
    using map_dps_values_distinct[of d] by (metis distinct_card length_map set_map)
  moreover have "card (fst ` set d) = length d"
    using assms(1) by (metis distinct_card length_map set_map)
  ultimately have "length ?out < length d" by (simp add: map_dps_values_keys)
  with one val show ?thesis by (simp add: mapped_key_known)
qed

theorem map_dps_values_unknown_collision_witness:
  "distinct (map fst [(''20'', 1::int), (''25'', 0), (''26'', 7)])
   \<and> (''25'', 0) \<in> set [(''20'', 1::int), (''25'', 0), (''26'', 7)]
   \<and> (''26'', 7) \<in> set [(''20'', 1::int), (''25'', 0), (''26'', 7)]
   \<and> map_dps_values [(''20'', 1::int), (''25'', 0), (''26'', 7)]
       = [(''Power State'', 1), (''Unknown'', 7)]
   \<and> length (filter (\<lambda>p. fst p = ''Unknown'')
        (map_dps_values [(''20'', 1::int), (''25'', 0), (''26'', 7)])) = 1
   \<and> length (map_dps_values [(''20'', 1::int), (''25'', 0), (''26'', 7)]) < 3"
  using map_dps_values_unknown_collision[of "[(''20'', 1::int), (''25'', 0), (''26'', 7)]" 0 7]
  by (simp add: map_dps_values_def mapped_key_def mapping_def)

section \<open>The stored configuration\<close>

lemma lower_keys:
  "lower ''DEVICE_ID'' = ''device_id''" "lower ''DEVICE_IP'' = ''device_ip''"
  "lower ''DEVICE_KEY'' = ''device_key''" "lower ''DEVICE_VERSION'' = ''device_version''"
  by code_simp+

lemma drop_escaped_no_percent: "CHR ''%'' \<notin> set v \<Longrightarrow> drop_escaped v = v"
  by (induction v rule: drop_escaped.induct) auto

lemma drop_refs_no_percent: "CHR ''%'' \<notin> set v \<Longrightarrow> drop_refs v = v"
  by (induction v) auto

lemma before_set_no_percent: "CHR ''%'' \<notin> set v \<Longrightarrow> before_set v"
  by (simp add: before_set_def drop_escaped_no_percent drop_refs_no_percent)

lemma interpolate_no_percent:
  "CHR ''%'' \<notin> set v \<Longrightarrow> interpolate_some (Suc n) m v = Inr v"
  by (induction v) auto

lemma split_lines_single: "CHR 0x0A \<notin> set v \<Longrightarrow> split_lines v = [v]"
  by (induction v) auto

lemma strip_plain:
  assumes "case v of [] \<Rightarrow> True | c # _ \<Rightarrow> \<not> isspace c \<and> \<not> isspace (last v)"
  shows "lstrip v = v" and "rstrip v = v"
proof -
  show "lstrip v = v"
    using assms by (cases v) (simp_all add: lstrip_def)
  have "dropWhile isspace (rev v) = rev v"
  proof (cases v)
    case Nil
    then show ?thesis by simp
  next
    case (Cons c cs)
    have "\<not> isspace (last v)"
      using assms unfolding Cons by simp
    moreover have "rev v \<noteq> []" using Cons by simp
    then have "hd (rev v) = last v"
      by (simp add: hd_rev)
    ultimately have "\<not> isspace (hd (rev v))" by simp
    moreover have "rev v \<noteq> []" using Cons by simp
    ultimately show ?thesis by (cases "rev v") simp_all
  qed
  then show "rstrip v = v" by (simp add: rstrip_def)
qed

lemma ini_value_plain: "plain v \<Longrightarrow> ini_value v = v"
  by (simp add: plain_def ini_value_def split_lines_single strip_def strip_plain)

lemma read_options_apply:
  "read_options old new k = (case new k of None \<Rightarrow> old k | Some v \<Rightarrow> Some (ini_value v))"
  by (simp add: read_options_def map_add_def split: option.splits)

lemma set_items_four:
  "set_items s [(k1, v1), (k2, v2), (k3, v3), (k4, v4)] c = (Inr u, c') \<Longrightarrow>
   c' = c\<lparr>sections := (sections c)(s \<mapsto>
          (case sections c s of None \<Rightarrow> Map.empty | Some opts \<Rightarrow> opts)
            (lower k1 \<mapsto> v1, lower k2 \<mapsto> v2, lower k3 \<mapsto> v3, lower k4 \<mapsto> v4))\<rparr>"
  by (simp split: if_splits)

lemma set_items_four_ok:
  "(v1 = [] \<or> before_set v1) \<Longrightarrow> (v2 = [] \<or> before_set v2) \<Longrightarrow>
   (v3 = [] \<or> before_set v3) \<Longrightarrow> (v4 = [] \<or> before_set v4) \<Longrightarrow>
   fst (set_items s [(k1, v1), (k2, v2), (k3, v3), (k4, v4)] c) = Inr ()"
  by auto

lemma configure_result:
  assumes "configure i a k v w = (Inr u :: 'e error + unit, w')"
  shows "w' = w\<lparr>config := (config w)\<lparr>sections := (sections (config w))(''Floodlight'' \<mapsto> floodlight_section i a k v)\<rparr>,
               config_file := Some ((config w)\<lparr>sections := (sections (config w))(''Floodlight'' \<mapsto> floodlight_section i a k v)\<rparr>),
               out := out w @ [Echo ''Configuration saved successfully!'']\<rparr>"
proof -
  from assms obtain c where s: "set_items ''Floodlight''
      [(''DEVICE_ID'', i), (''DEVICE_IP'', a), (''DEVICE_KEY'', k), (''DEVICE_VERSION'', v)]
      ((config w)\<lparr>sections := (sections (config w))(''Floodlight'' \<mapsto> Map.empty)\<rparr>) = (Inr () :: 'e error + unit, c)"
    and w': "w' = w\<lparr>config := c, config_file := Some c,
                     out := out w @ [Echo ''Configuration saved successfully!'']\<rparr>"
    unfolding configure_def setitem_def echo_def
    by (auto split: prod.splits sum.splits simp del: set_items.simps)
  show ?thesis
    unfolding w' set_items_four[OF s] by (simp add: lower_keys floodlight_section_def)
qed

lemma configure_plain_ok:
  assumes "CHR ''%'' \<notin> set i" "CHR ''%'' \<notin> set a" "CHR ''%'' \<notin> set k" "CHR ''%'' \<notin> set v"
  shows "fst (configure i a k v w) = (Inr () :: 'e error + unit)"
proof -
  have "fst (setitem ''Floodlight''
      [(''DEVICE_ID'', i), (''DEVICE_IP'', a), (''DEVICE_KEY'', k), (''DEVICE_VERSION'', v)]
      (config w)) = (Inr () :: 'e error + unit)"
    unfolding setitem_def using assms
    by (intro set_items_four_ok) (simp_all add: before_set_no_percent)
  then show ?thesis
    by (auto simp: configure_def echo_def split: prod.splits sum.splits)
qed

lemma config_get_plain:
  "sections c s = Some opts \<Longrightarrow> opts (lower k) = Some v \<Longrightarrow> CHR ''%'' \<notin> set v \<Longrightarrow>
   config_get c s k = Inr v"
proof -
  assume a: "sections c s = Some opts" "opts (lower k) = Some v" "CHR ''%'' \<notin> set v"
  have "interpolate_some (Suc 9) (defaults c ++ opts) v = Inr v"
    using a(3) by (rule interpolate_no_percent)
  then show ?thesis
    using a by (simp add: config_get_def map_add_def)
qed

lemma init_attributes_unfold:
  "init_attributes w =
     (if unconfigured w then (Inl ConfigError, w)
      else case config_get (config w) ''Floodlight'' ''DEVICE_ID'' of
        Inl e \<Rightarrow> (Inl (ConfigParserError e), w)
      | Inr i \<Rightarrow>
         (case config_get (config w) ''Floodlight'' ''DEVICE_IP'' of
            Inl e \<Rightarrow> (Inl (ConfigParserError e), w)
          | Inr a \<Rightarrow>
             (case config_get (config w) ''Floodlight'' ''DEVICE_KEY'' of
                Inl e \<Rightarrow> (Inl (ConfigParserError e), w)
              | Inr k \<Rightarrow>
                 (case config_get (config w) ''Floodlight'' ''DEVICE_VERSION'' of
                    Inl e \<Rightarrow> (Inl (ConfigParserError e), w)
                  | Inr v \<Rightarrow>
                     (Inr \<lparr>device_id = i, device_ip = (if a = [] then ''Auto'' else a),
                           device_key = k, device_version = v\<rparr>, w)))))"
  unfolding init_attributes_def andthen_def check_config_def get_option_def
  by (simp split: sum.split)

lemma init_attributes_state: "snd (init_attributes w) = w"
  unfolding init_attributes_unfold by (simp split: sum.split)

lemma init_attributes_Inr:
  assumes "fst (init_attributes w) = (Inr self :: 'e error + controller)"
  shows "\<not> unconfigured w \<and>
    (\<exists>a. config_get (config w) ''Floodlight'' ''DEVICE_ID'' = Inr (device_id self)
       \<and> config_get (config w) ''Floodlight'' ''DEVICE_IP'' = Inr a
       \<and> device_ip self = (if a = [] then ''Auto'' else a)
       \<and> config_get (config w) ''Floodlight'' ''DEVICE_KEY'' = Inr (device_key self)
       \<and> config_get (config w) ''Floodlight'' ''DEVICE_VERSION'' = Inr (device_version self))"
proof -
  from assms have nu: "\<not> unconfigured w"
    by (simp add: init_attributes_unfold split: if_split_asm)
  from assms nu obtain i where i:
    "config_get (config w) ''Floodlight'' ''DEVICE_ID'' = Inr i"
    by (cases "config_get (config w) ''Floodlight'' ''DEVICE_ID''")
      (simp_all add: init_attributes_unfold)
  from assms nu i obtain a where a:
    "config_get (config w) ''Floodlight'' ''DEVICE_IP'' = Inr a"
    by (cases "config_get (config w) ''Floodlight'' ''DEVICE_IP''")
      (simp_all add: init_attributes_unfold)
  from assms nu i a obtain k where k:
    "config_get (config w) ''Floodlight'' ''DEVICE_KEY'' = Inr k"
    by (cases "config_get (config w) ''Floodlight'' ''DEVICE_KEY''")
      (simp_all add: init_attributes_unfold)
  from assms nu i a k obtain v where v:
    "config_get (config w) ''Floodlight'' ''DEVICE_VERSION'' = Inr v"
    by (cases "config_get (config w) ''Floodlight'' ''DEVICE_VERSION''")
      (simp_all add: init_attributes_unfold)
  from assms nu i a k v have self:
    "self = \<lparr>device_id = i, device_ip = (if a = [] then ''Auto'' else a),
             device_key = k, device_version = v\<rparr>"
    by (simp add: init_attributes_unfold)
  have "device_id self = i" "device_key self = k" "device_version self = v"
    "device_ip self = (if a = [] then ''Auto'' else a)"
    unfolding self by (simp_all del: list.simps)
  then show ?thesis
    using nu i a k v by blast
qed

lemma config_read_frame [simp]:
  "calls (config_read w) = calls w" "out (config_read w) = out w"
  "stdin (config_read w) = stdin w" "config_file (config_read w) = config_file w"
  by (simp_all add: config_read_def split: option.split)

lemma init_after_attributes:
  assumes "fst (init_attributes w) = (Inr self :: 'e error + controller)"
  shows "init (env :: ('e, 'f, 'v) env) w =
     (case raises env (calls w) (OutletDevice (device_id self) (device_ip self) (device_key self)) of
        Some e \<Rightarrow> (Inl (LibraryError e),
          w\<lparr>calls := calls w @ [OutletDevice (device_id self) (device_ip self) (device_key self)]\<rparr>)
      | None \<Rightarrow>
         (case py_float env (device_version self) of
            None \<Rightarrow> (Inl ValueError,
              w\<lparr>calls := calls w @ [OutletDevice (device_id self) (device_ip self) (device_key self)]\<rparr>)
          | Some x \<Rightarrow>
             (case raises env
                     (calls w @ [OutletDevice (device_id self) (device_ip self) (device_key self)])
                     (SetVersion x) of
                Some e \<Rightarrow> (Inl (LibraryError e),
                  w\<lparr>calls := calls w @ [OutletDevice (device_id self) (device_ip self) (device_key self),
                                        SetVersion x]\<rparr>)
              | None \<Rightarrow> (Inr self,
                  w\<lparr>calls := calls w @ [OutletDevice (device_id self) (device_ip self) (device_key self),
                                        SetVersion x]\<rparr>))))"
proof -
  have ia: "init_attributes w = (Inr self :: 'e error + controller, w)"
    using assms init_attributes_state[of w] by (metis prod.collapse)
  show ?thesis
    unfolding init_def andthen_def lib_call_def
    by (simp add: ia split: option.split)
qed

lemma map_add_self: "m ++ m = m"
  by (rule ext) (simp add: map_add_def split: option.split)

lemma loaded_section:
  assumes "config_file w = Some c" and "sections c s = Some opts"
  shows "sections (config (loaded w)) s = Some (map_option ini_value \<circ> opts)"
  using assms
  by (simp add: loaded_def config_read_def read_ini_def read_options_def empty_parser_def
      map_add_self)

lemma loaded_configured:
  assumes "config_file w = Some c" and "sections c ''Floodlight'' = Some opts"
  shows "\<not> unconfigured (loaded w)" and "\<not> unconfigured (config_read (w\<lparr>config := empty_parser\<rparr>))"
  using assms
  by (simp_all add: loaded_def unconfigured_def has_section_def config_read_def read_ini_def)


lemma plain_examples:
  "plain ''bf1234''" "plain ''192.168.1.20''" "plain ''0123456789abcdef''" "plain ''3.3''"
  by code_simp+



text \<open>
  Claim C5, amended. When the stored device address is empty, the controller's
  \<^verbatim>\<open>device_ip\<close> is \<^verbatim>\<open>"Auto"\<close>, and the first call \<^verbatim>\<open>__init__\<close> makes to the library
  creates the device client with \<^verbatim>\<open>"Auto"\<close> as its address.
\<close>

theorem init_default_device_ip:
  assumes "fst (init_attributes w) = (Inr self :: 'e error + controller)"
    and "config_get (config w) ''Floodlight'' ''DEVICE_IP'' = Inr []"
  shows "device_ip self = ''Auto''
    \<and> prefix (calls w @ [OutletDevice (device_id self) ''Auto'' (device_key self)])
         (calls (snd (init (env :: ('e, 'f, 'v) env) w)))"
proof -
  from init_attributes_Inr[OF assms(1)] assms(2) have ip: "device_ip self = ''Auto''"
    by (metis Inr_inject)
  have "prefix (calls w @ [OutletDevice (device_id self) (device_ip self) (device_key self)])
         (calls (snd (init env w)))"
    unfolding init_after_attributes[OF assms(1)]
    by (simp split: option.split add: prefix_def)
  with ip show ?thesis by (simp only:) 
qed

theorem init_default_device_ip_witness:
  "fst (init_attributes (configured_world ''bf1234'' [] ''0123456789abcdef'' ''3.3''))
     = (Inr \<lparr>device_id = ''bf1234'', device_ip = ''Auto'',
              device_key = ''0123456789abcdef'', device_version = ''3.3''\<rparr> :: string error + controller)
   \<and> config_get (config (configured_world ''bf1234'' [] ''0123456789abcdef'' ''3.3''))
        ''Floodlight'' ''DEVICE_IP'' = Inr []
   \<and> prefix [OutletDevice ''bf1234'' ''Auto'' ''0123456789abcdef'']
        (calls (snd (init demo_env (configured_world ''bf1234'' [] ''0123456789abcdef'' ''3.3''))))"
proof -
  have a: "fst (init_attributes (configured_world ''bf1234'' [] ''0123456789abcdef'' ''3.3''))
     = (Inr \<lparr>device_id = ''bf1234'', device_ip = ''Auto'',
              device_key = ''0123456789abcdef'', device_version = ''3.3''\<rparr> :: string error + controller)"
    by code_simp
  have b: "config_get (config (configured_world ''bf1234'' [] ''0123456789abcdef'' ''3.3''))
        ''Floodlight'' ''DEVICE_IP'' = Inr []"
    by code_simp
  have c: "calls (configured_world ''bf1234'' [] ''0123456789abcdef'' ''3.3'') = []"
    by (simp add: configured_world_def)
  from init_default_device_ip[OF a b, of demo_env]
  have "prefix [OutletDevice ''bf1234'' ''Auto'' ''0123456789abcdef'']
        (calls (snd (init demo_env (configured_world ''bf1234'' [] ''0123456789abcdef'' ''3.3''))))"
    by (simp add: c)
  with a b show ?thesis by (intro conjI)
qed

text \<open>
  The address the client gets is \<^verbatim>\<open>"Auto"\<close>; no call carries \<^verbatim>\<open>"auto-discover"\<close>.
\<close>

theorem init_default_device_ip_counterexample:
  "calls (snd (init demo_env (configured_world ''bf1234'' [] ''0123456789abcdef'' ''3.3'')))
     = [OutletDevice ''bf1234'' ''Auto'' ''0123456789abcdef'', SetVersion 33]
   \<and> OutletDevice ''bf1234'' ''auto-discover'' ''0123456789abcdef''
       \<notin> set (calls (snd (init demo_env (configured_world ''bf1234'' [] ''0123456789abcdef'' ''3.3''))))"
  by code_simp

text \<open>
  Claim C10. When the four attributes are read and the device client is created, a stored
  version that \<^verbatim>\<open>float\<close> rejects makes \<^verbatim>\<open>__init__\<close> raise \<open>ValueError\<close> after the client
  was created, and for every device command the main block lets it through: the run
  ends in \<open>ValueError\<close>, the handler for \<open>ConfigError\<close> writes nothing.
\<close>

theorem init_unparsable_version_raises:
  assumes "fst (init_attributes (config_read w)) = (Inr self :: 'e error + controller)"
    and "py_float (env :: ('e, 'f, 'v) env) (device_version self) = None"
    and "raises env (calls w) (OutletDevice (device_id self) (device_ip self) (device_key self)) = None"
    and "is_device_command cmd"
  shows "init env (config_read w) =
           (Inl ValueError, (config_read w)\<lparr>calls := calls w @
              [OutletDevice (device_id self) (device_ip self) (device_key self)]\<rparr>)
    \<and> main env cmd w =
           (Inl ValueError, (config_read w)\<lparr>calls := calls w @
              [OutletDevice (device_id self) (device_ip self) (device_key self)]\<rparr>)"
proof -
  have i: "init env (config_read w) =
           (Inl ValueError, (config_read w)\<lparr>calls := calls w @
              [OutletDevice (device_id self) (device_ip self) (device_key self)]\<rparr>)"
    unfolding init_after_attributes[OF assms(1)] using assms(2,3) by simp
  have "cli env cmd (config_read w) =
           (Inl ValueError, (config_read w)\<lparr>calls := calls w @
              [OutletDevice (device_id self) (device_ip self) (device_key self)]\<rparr>)"
    using assms(4) by (cases cmd) (simp_all add: cli_def andthen_def i is_device_command_def)
  then have "main env cmd w =
           (Inl ValueError, (config_read w)\<lparr>calls := calls w @
              [OutletDevice (device_id self) (device_ip self) (device_key self)]\<rparr>)"
    by (simp add: main_def)
  with i show ?thesis by simp
qed

theorem init_unparsable_version_raises_witness:
  "fst (init_attributes (config_read (configured_world ''bf1234'' ''192.168.1.20'' ''0123456789abcdef'' ''three'')))
     = (Inr \<lparr>device_id = ''bf1234'', device_ip = ''192.168.1.20'',
              device_key = ''0123456789abcdef'', device_version = ''three''\<rparr> :: string error + controller)
   \<and> py_float demo_env ''three'' = None
   \<and> is_device_command Off
   \<and> main demo_env Off (configured_world ''bf1234'' ''192.168.1.20'' ''0123456789abcdef'' ''three'')
      = (Inl ValueError,
         (config_read (configured_world ''bf1234'' ''192.168.1.20'' ''0123456789abcdef'' ''three''))
           \<lparr>calls := [OutletDevice ''bf1234'' ''192.168.1.20'' ''0123456789abcdef'']\<rparr>)"
proof -
  let ?w = "configured_world ''bf1234'' ''192.168.1.20'' ''0123456789abcdef'' ''three''"
  have a: "fst (init_attributes (config_read ?w))
     = (Inr \<lparr>device_id = ''bf1234'', device_ip = ''192.168.1.20'',
              device_key = ''0123456789abcdef'', device_version = ''three''\<rparr> :: string error + controller)"
    by code_simp
  have b: "py_float demo_env ''three'' = None"
    by (simp add: demo_env_def)
  have c: "raises demo_env (calls ?w) (OutletDevice ''bf1234'' ''192.168.1.20'' ''0123456789abcdef'') = None"
    by (simp add: demo_env_def)
  have d: "is_device_command Off"
    by (simp add: is_device_command_def)
  have e: "calls ?w = []"
    by (simp add: configured_world_def)
  from init_unparsable_version_raises[OF a, of demo_env Off] b c d
  have "main demo_env Off ?w = (Inl ValueError,
         (config_read ?w)\<lparr>calls := [OutletDevice ''bf1234'' ''192.168.1.20'' ''0123456789abcdef'']\<rparr>)"
    by (simp add: e)
  with a b d show ?thesis by (intro conjI)
qed

section \<open>Powering on\<close>

lemma on_None_calls: "calls (snd (on env None w)) = calls w @ [SetValue 20 (VBool True)]"
  by (simp add: on_def andthen_def lib_call_def info_def split: option.splits)

lemma on_zero_calls: "calls (snd (on env (Some 0) w)) = calls w @ [SetValue 20 (VBool True)]"
  by (simp add: on_def andthen_def lib_call_def info_def split: option.splits)

lemma on_brightness_calls:
  "n \<noteq> 0 \<Longrightarrow> raises env (calls w) (SetValue 20 (VBool True)) = None \<Longrightarrow>
   calls (snd (on env (Some n) w)) = calls w @ [SetValue 20 (VBool True), SetValue 22 (VInt n)]"
  by (simp add: on_def andthen_def lib_call_def info_def split: option.splits)

text \<open>
  Claim C4, amended. The brightness is optional. \<^verbatim>\<open>on\<close> without a brightness sets data
  point 20 (power) and nothing else. With a brightness \<open>n\<close> other than 0 it sets the power
  data point and, when that call returns, data point 22 (brightness) to \<open>n\<close>. The command
  line's \<^verbatim>\<open>on\<close> without \<^verbatim>\<open>--brightness\<close> is the command with \<^verbatim>\<open>--brightness 1000\<close>.
\<close>

theorem on_optional_brightness:
  "calls (snd (on env None w)) = calls w @ [SetValue 20 (VBool True)]
   \<and> (n \<noteq> 0 \<and> raises env (calls w) (SetValue 20 (VBool True)) = None \<longrightarrow>
        calls (snd (on env (Some n) w)) = calls w @ [SetValue 20 (VBool True), SetValue 22 (VInt n)])
   \<and> cli env (On None) = cli env (On (Some 1000))"
  by (simp add: on_None_calls on_brightness_calls cli_def)

theorem on_optional_brightness_witness:
  "(500 :: int) \<noteq> 0
   \<and> raises demo_env (calls (configured_world ''bf1234'' ''192.168.1.20'' ''0123456789abcdef'' ''3.3''))
         (SetValue 20 (VBool True)) = None
   \<and> calls (snd (on demo_env (Some 500)
         (configured_world ''bf1234'' ''192.168.1.20'' ''0123456789abcdef'' ''3.3'')))
       = [SetValue 20 (VBool True), SetValue 22 (VInt 500)]
   \<and> calls (snd (on demo_env None
         (configured_world ''bf1234'' ''192.168.1.20'' ''0123456789abcdef'' ''3.3'')))
       = [SetValue 20 (VBool True)]"
proof -
  let ?w = "configured_world ''bf1234'' ''192.168.1.20'' ''0123456789abcdef'' ''3.3''"
  have r: "raises demo_env (calls ?w) (SetValue 20 (VBool True)) = None"
    by (simp add: demo_env_def)
  have c: "calls ?w = []"
    by (simp add: configured_world_def)
  note t = on_optional_brightness[of demo_env ?w 500]
  have a: "calls (snd (on demo_env None ?w)) = [SetValue 20 (VBool True)]"
    using t[THEN conjunct1] by (simp add: c)
  have b: "calls (snd (on demo_env (Some 500) ?w)) = [SetValue 20 (VBool True), SetValue 22 (VInt 500)]"
    using t[THEN conjunct2, THEN conjunct1] r by (simp add: c)
  have n: "(500 :: int) \<noteq> 0" by simp
  show ?thesis
    by (intro conjI) (rule n r a b)+
qed

text \<open>
  The claim as stated fails at brightness 0, where only the power data point is set, and
  for the command without the option, which sets the brightness to 1000.
\<close>

theorem on_optional_brightness_counterexample:
  "calls (snd (on demo_env (Some 0)
       (configured_world ''bf1234'' ''192.168.1.20'' ''0123456789abcdef'' ''3.3'')))
     = [SetValue 20 (VBool True)]
   \<and> SetValue 22 (VInt 0) \<notin> set (calls (snd (on demo_env (Some 0)
       (configured_world ''bf1234'' ''192.168.1.20'' ''0123456789abcdef'' ''3.3''))))
   \<and> calls (snd (cli demo_env (On None)
       (configured_world ''bf1234'' ''192.168.1.20'' ''0123456789abcdef'' ''3.3'')))
     = [OutletDevice ''bf1234'' ''192.168.1.20'' ''0123456789abcdef'', SetVersion 33,
        SetValue 20 (VBool True), SetValue 22 (VInt 1000)]"
  by code_simp

text \<open>
  Claim C8. When the controller is constructed and the power call returns, the \<^verbatim>\<open>on\<close>
  command without \<^verbatim>\<open>--brightness\<close> sets the power data point and then the brightness
  data point to 1000; with \<^verbatim>\<open>--brightness 0\<close> it sets the power data point and makes no
  further call.
\<close>

theorem cli_on_default_and_zero:
  assumes "fst (init env w) = Inr self"
    and "raises env (calls (snd (init env w))) (SetValue 20 (VBool True)) = None"
  shows "calls (snd (cli env (On None) w)) =
           calls (snd (init env w)) @ [SetValue 20 (VBool True), SetValue 22 (VInt 1000)]
       \<and> calls (snd (cli env (On (Some 0)) w)) =
           calls (snd (init env w)) @ [SetValue 20 (VBool True)]"
proof -
  obtain w1 where i: "init env w = (Inr self, w1)"
    using assms(1) by (metis prod.collapse)
  show ?thesis
    using assms(2) by (simp add: cli_def andthen_def i on_zero_calls on_brightness_calls)
qed

theorem cli_on_default_and_zero_witness:
  "fst (init demo_env (configured_world ''bf1234'' ''192.168.1.20'' ''0123456789abcdef'' ''3.3''))
     = Inr \<lparr>device_id = ''bf1234'', device_ip = ''192.168.1.20'',
             device_key = ''0123456789abcdef'', device_version = ''3.3''\<rparr>
   \<and> raises demo_env
        (calls (snd (init demo_env (configured_world ''bf1234'' ''192.168.1.20'' ''0123456789abcdef'' ''3.3''))))
        (SetValue 20 (VBool True)) = None
   \<and> calls (snd (cli demo_env (On None)
        (configured_world ''bf1234'' ''192.168.1.20'' ''0123456789abcdef'' ''3.3'')))
      = [OutletDevice ''bf1234'' ''192.168.1.20'' ''0123456789abcdef'', SetVersion 33,
         SetValue 20 (VBool True), SetValue 22 (VInt 1000)]
   \<and> calls (snd (cli demo_env (On (Some 0))
        (configured_world ''bf1234'' ''192.168.1.20'' ''0123456789abcdef'' ''3.3'')))
      = [OutletDevice ''bf1234'' ''192.168.1.20'' ''0123456789abcdef'', SetVersion 33,
         SetValue 20 (VBool True)]"
proof -
  let ?w = "configured_world ''bf1234'' ''192.168.1.20'' ''0123456789abcdef'' ''3.3''"
  have a: "fst (init demo_env ?w)
     = Inr \<lparr>device_id = ''bf1234'', device_ip = ''192.168.1.20'',
             device_key = ''0123456789abcdef'', device_version = ''3.3''\<rparr>"
    by code_simp
  have r: "raises demo_env (calls (snd (init demo_env ?w))) (SetValue 20 (VBool True)) = None"
    by (simp add: demo_env_def)
  have c: "calls (snd (init demo_env ?w)) =
      [OutletDevice ''bf1234'' ''192.168.1.20'' ''0123456789abcdef'', SetVersion 33]"
    by code_simp
  note t = cli_on_default_and_zero[OF a r]
  have x: "calls (snd (cli demo_env (On None) ?w))
      = [OutletDevice ''bf1234'' ''192.168.1.20'' ''0123456789abcdef'', SetVersion 33,
         SetValue 20 (VBool True), SetValue 22 (VInt 1000)]"
    using t[THEN conjunct1] by (simp add: c)
  have y: "calls (snd (cli demo_env (On (Some 0)) ?w))
      = [OutletDevice ''bf1234'' ''192.168.1.20'' ''0123456789abcdef'', SetVersion 33,
         SetValue 20 (VBool True)]"
    using t[THEN conjunct2] by (simp add: c)
  show ?thesis
    by (intro conjI) (rule a r x y)+
qed

section \<open>Following a run\<close>

lemma quiet_append: "quiet env h (xs @ ys) = (quiet env h xs \<and> quiet env (h @ xs) ys)"
  by (induction xs arbitrary: h) auto

lemma local_at_andthen:
  assumes "local_at f w" and "\<And>a w'. f w = (Inr a, w') \<Longrightarrow> local_at (g a) w'"
  shows "local_at (andthen f g) w"
proof (cases "f w")
  case (Pair r w')
  show ?thesis
  proof (cases r)
    case (Inl x)
    with Pair assms(1) show ?thesis
      by (simp add: local_at_def andthen_def)
  next
    case (Inr a)
    with Pair have "local_at (g a) w'" by (intro assms(2)) simp
    moreover have "calls w' = calls w" using assms(1) Pair by (simp add: local_at_def)
    ultimately show ?thesis
      using Pair Inr by (simp add: local_at_def andthen_def)
  qed
qed

lemma local_faithful: "local_at f w \<Longrightarrow> faithful_at env f w"
proof -
  assume l: "local_at f w"
  have 1: "fst (f w) \<noteq> Inl ConfigError"
    using l by (auto simp: local_at_def local_error_def)
  have 2: "case fst (f w) of Inl (LibraryError e) \<Rightarrow>
              [] \<noteq> [] \<and> quiet env (calls w) (butlast []) \<and>
              raises env (calls w @ butlast []) (last []) = Some e
          | _ \<Rightarrow> quiet env (calls w) []"
    using l by (auto simp: local_at_def local_error_def split: sum.split error.split)
  show ?thesis
    unfolding faithful_at_def using 1 2 l by (intro conjI exI[of _ "[]"]) (simp_all add: local_at_def)
qed

lemma faithful_lib_call: "faithful_at env (lib_call env c) w"
  unfolding faithful_at_def
  by (auto simp: lib_call_def split: option.split intro!: exI[of _ "[c]"])

lemma faithful_andthen:
  assumes "faithful_at env f w" and "\<And>a w'. f w = (Inr a, w') \<Longrightarrow> faithful_at env (g a) w'"
  shows "faithful_at env (andthen f g) w"
proof (cases "f w")
  case (Pair r w')
  show ?thesis
  proof (cases r)
    case (Inl x)
    with Pair assms(1) show ?thesis
      by (simp add: faithful_at_def andthen_def)
  next
    case (Inr a)
    with Pair have g: "faithful_at env (g a) w'" by (intro assms(2)) simp
    from assms(1) Pair Inr obtain cs1 where cs1: "calls w' = calls w @ cs1" "quiet env (calls w) cs1"
      by (auto simp: faithful_at_def)
    from g obtain cs2 where cs2: "calls (snd (g a w')) = calls w' @ cs2"
      "case fst (g a w') of
            Inl (LibraryError e) \<Rightarrow>
              cs2 \<noteq> [] \<and> quiet env (calls w') (butlast cs2) \<and>
              raises env (calls w' @ butlast cs2) (last cs2) = Some e
          | _ \<Rightarrow> quiet env (calls w') cs2"
      by (auto simp: faithful_at_def)
    have e: "andthen f g w = g a w'"
      using Pair Inr by (simp add: andthen_def)
    have "case fst (g a w') of
            Inl (LibraryError e) \<Rightarrow>
              cs1 @ cs2 \<noteq> [] \<and> quiet env (calls w) (butlast (cs1 @ cs2)) \<and>
              raises env (calls w @ butlast (cs1 @ cs2)) (last (cs1 @ cs2)) = Some e
          | _ \<Rightarrow> quiet env (calls w) (cs1 @ cs2)"
      using cs2(2) cs1
      by (auto simp: quiet_append butlast_append split: sum.splits error.splits)
    moreover have "calls (snd (g a w')) = calls w @ (cs1 @ cs2)"
      using cs1 cs2 by simp
    moreover have "fst (g a w') \<noteq> Inl ConfigError"
      using g by (simp add: faithful_at_def)
    ultimately show ?thesis
      unfolding faithful_at_def e by blast
  qed
qed

lemma local_return: "local_at (Pair (Inr a)) w"
  by (simp add: local_at_def)

lemma local_echo: "local_at (echo msg) w"
  by (simp add: local_at_def echo_def)

lemma local_info: "local_at (info ev) w"
  by (simp add: local_at_def info_def)

lemma local_prompt: "local_at (prompt text) w"
  by (simp add: local_at_def prompt_def local_error_def split: option.split prod.split)

lemma local_option_or_prompt: "local_at (option_or_prompt text given) w"
  by (cases given) (simp_all add: option_or_prompt_def local_prompt local_return)

lemma set_items_error: "set_items s kvs c = (Inl x, c') \<Longrightarrow> x = ValueError"
  by (induction s kvs c rule: set_items.induct) (auto split: if_splits)

lemma local_configure: "local_at (configure i a k v) w"
proof -
  have "\<And>x. fst (configure i a k v w) = Inl x \<Longrightarrow> x = ValueError"
    unfolding configure_def setitem_def echo_def
    by (auto split: prod.splits sum.splits dest: set_items_error simp del: set_items.simps)
  moreover have "calls (snd (configure i a k v w)) = calls w"
    unfolding configure_def setitem_def echo_def
    by (simp split: prod.splits sum.splits del: set_items.simps)
  ultimately show ?thesis
    by (auto simp: local_at_def local_error_def)
qed

lemma local_configure_prompting: "local_at configure_prompting w"
  unfolding configure_prompting_def
  by (intro local_at_andthen local_prompt local_configure)

lemma local_startup: "local_at startup w"
  by (simp add: local_at_def startup_def Let_def local_configure_prompting[unfolded local_at_def])

lemma local_get_option: "local_at (get_option k) w"
  by (cases "config_get (config w) ''Floodlight'' k")
    (simp_all add: local_at_def get_option_def local_error_def)

lemma local_init_attributes: "\<not> unconfigured w \<Longrightarrow> local_at init_attributes w"
  unfolding init_attributes_def
  by (intro local_at_andthen local_get_option local_return)
    (simp add: local_at_def check_config_def)

lemma check_config_Inr: "check_config w = (Inr a, w') \<Longrightarrow> w' = w"
  by (simp add: check_config_def split: if_splits)

lemmas faithful_info = local_faithful[OF local_info]

lemmas faithful_return = local_faithful[OF local_return]

lemma faithful_raise: "local_error x \<Longrightarrow> faithful_at env (Pair (Inl x)) w"
  by (rule local_faithful) (simp add: local_at_def)

lemma faithful_init:
  "\<not> unconfigured w \<Longrightarrow> faithful_at (env :: ('e, 'f, 'v) env) (init env) w"
  unfolding init_def
proof (rule faithful_andthen)
  assume "\<not> unconfigured w"
  then show "faithful_at env init_attributes w"
    by (intro local_faithful local_init_attributes)
next
  fix self :: controller and w' :: "('f, 'v) world"
  show "faithful_at env
     (andthen (lib_call env (OutletDevice (device_id self) (device_ip self) (device_key self)))
       (\<lambda>_. case py_float env (device_version self) of
              None \<Rightarrow> Pair (Inl ValueError)
            | Some x \<Rightarrow> andthen (lib_call env (SetVersion x)) (\<lambda>_. Pair (Inr self)))) w'"
  proof (rule faithful_andthen[OF faithful_lib_call])
    fix w'' :: "('f, 'v) world"
    show "faithful_at env
        (case py_float env (device_version self) of
           None \<Rightarrow> Pair (Inl ValueError)
         | Some x \<Rightarrow> andthen (lib_call env (SetVersion x)) (\<lambda>_. Pair (Inr self))) w''"
    proof (cases "py_float env (device_version self)")
      case None
      then show ?thesis
        by (simp add: faithful_raise local_error_def)
    next
      case (Some x)
      then show ?thesis
        by (simp, intro faithful_andthen faithful_lib_call faithful_return)
    qed
  qed
qed

lemma faithful_on: "faithful_at env (on env b) w"
proof (cases b)
  case None
  then show ?thesis
    unfolding on_def by (simp, intro faithful_andthen faithful_lib_call faithful_info)
next
  case (Some n)
  show ?thesis
  proof (cases "n = 0")
    case True
    with Some show ?thesis
      unfolding on_def by (simp, intro faithful_andthen faithful_lib_call faithful_info)
  next
    case False
    with Some show ?thesis
      unfolding on_def by (simp, intro faithful_andthen faithful_lib_call faithful_info)
  qed
qed

lemma faithful_off: "faithful_at env (off env) w"
  unfolding off_def
  by (intro faithful_andthen faithful_lib_call faithful_info)

lemma local_status_tail:
  "local_at (\<lambda>w. let data = status_reply env (calls w)
       in case dps data of
            None \<Rightarrow> (Inl (KeyError ''dps''), w)
          | Some d \<Rightarrow>
             (case devId data of
                None \<Rightarrow> (Inl (KeyError ''devId''), w)
              | Some i \<Rightarrow> andthen (info (InfoStatus i (map_dps_values d))) (\<lambda>_. Pair (Inr data)) w)) w"
  by (simp add: local_at_def Let_def local_error_def andthen_def info_def
      split: option.split)

lemma faithful_status: "faithful_at env (status env) w"
  unfolding status_def
  by (rule faithful_andthen[OF faithful_lib_call]) (rule local_faithful[OF local_status_tail])

lemma unconfigured_config_read: "\<not> unconfigured w \<Longrightarrow> \<not> unconfigured (config_read w)"
  by (auto simp: unconfigured_def has_section_def config_read_def read_ini_def split: option.splits)

lemma configure_configured:
  "configure i a k v w = (Inr u :: 'e error + unit, w') \<Longrightarrow> \<not> unconfigured w'"
  by (drule configure_result) (simp add: unconfigured_def has_section_def)

lemma andthen_Inr:
  "andthen f g w = (Inr b, w') \<Longrightarrow> \<exists>a w1. f w = (Inr a, w1) \<and> g a w1 = (Inr b, w')"
  by (auto simp: andthen_def split: prod.splits sum.splits)

lemma configure_prompting_configured:
  assumes "configure_prompting w = (Inr u :: 'e error + unit, w')"
  shows "\<not> unconfigured w'"
proof -
  from assms obtain i w1 where 1: "andthen (prompt ''Enter Device IP'') (\<lambda>device_ip.
     andthen (prompt ''Enter Device Key'') (\<lambda>device_key.
     andthen (prompt ''Enter Device Version'') (\<lambda>device_version.
       configure i device_ip device_key device_version))) w1 = (Inr u :: 'e error + unit, w')"
    unfolding configure_prompting_def by (blast dest: andthen_Inr)
  then obtain a w2 where 2: "andthen (prompt ''Enter Device Key'') (\<lambda>device_key.
     andthen (prompt ''Enter Device Version'') (\<lambda>device_version.
       configure i a device_key device_version)) w2 = (Inr u :: 'e error + unit, w')"
    by (blast dest: andthen_Inr)
  then obtain k w3 where 3: "andthen (prompt ''Enter Device Version'') (\<lambda>device_version.
       configure i a k device_version) w3 = (Inr u :: 'e error + unit, w')"
    by (blast dest: andthen_Inr)
  then obtain v w4 where "configure i a k v w4 = (Inr u :: 'e error + unit, w')"
    by (blast dest: andthen_Inr)
  then show ?thesis by (rule configure_configured)
qed

lemma startup_configured:
  "startup w = (Inr u :: 'e error + unit, w') \<Longrightarrow> \<not> unconfigured w'"
  by (auto simp: startup_def Let_def split: if_splits dest: configure_prompting_configured)

lemma faithful_cli:
  assumes "\<not> unconfigured w"
  shows "faithful_at (env :: ('e, 'f, 'v) env) (cli env cmd) w"
proof (cases cmd)
  case (On b)
  then show ?thesis
    unfolding cli_def using assms
    by (simp, intro faithful_andthen faithful_init faithful_on)
next
  case Off
  then show ?thesis
    unfolding cli_def using assms
    by (simp, intro faithful_andthen faithful_init faithful_off)
next
  case StatusCmd
  then show ?thesis
    unfolding cli_def using assms
    by (simp, intro faithful_andthen faithful_init faithful_status faithful_return)
next
  case (Configure i a k v)
  have "local_at (cli env cmd) w"
    unfolding cli_def Configure
    by (simp, intro local_at_andthen local_option_or_prompt local_configure)
  then show ?thesis by (rule local_faithful)
qed

lemma faithful_cli_read:
  assumes "\<not> unconfigured w"
  shows "faithful_at (env :: ('e, 'f, 'v) env) (\<lambda>w1. cli env cmd (config_read w1)) w"
  using faithful_cli[OF unconfigured_config_read[OF assms], of env cmd]
  unfolding faithful_at_def config_read_frame .

lemma main_unhandled:
  assumes "fst (cli env cmd (config_read w)) \<noteq> Inl ConfigError"
  shows "main env cmd w = cli env cmd (config_read w)"
proof (cases "cli env cmd (config_read w)")
  case (Pair r w1)
  with assms have "r \<noteq> Inl ConfigError" by simp
  then show ?thesis
    unfolding main_def Pair
    by (cases r; simp split: error.split)
qed

lemma program_unhandled:
  "program (env :: ('e, 'f, 'v) env) cmd w =
     andthen startup (\<lambda>_ w1. cli env cmd (config_read w1)) w"
proof (cases "startup w :: ('e error + unit) \<times> ('f, 'v) world")
  case (Pair r w1)
  show ?thesis
  proof (cases r)
    case (Inl x)
    with Pair show ?thesis by (simp add: program_def andthen_def)
  next
    case (Inr u)
    with Pair have "\<not> unconfigured w1" by (auto dest: startup_configured)
    then have "fst (cli env cmd (config_read w1)) \<noteq> Inl ConfigError"
      using faithful_cli_read[of w1 env cmd] by (simp add: faithful_at_def)
    then have "main env cmd w1 = cli env cmd (config_read w1)"
      by (rule main_unhandled)
    with Pair Inr show ?thesis by (simp add: program_def andthen_def)
  qed
qed

lemma faithful_program: "faithful_at (env :: ('e, 'f, 'v) env) (program env cmd) w"
proof -
  have "faithful_at env (andthen startup (\<lambda>_ w1. cli env cmd (config_read w1))) w"
    by (rule faithful_andthen[OF local_faithful[OF local_startup]])
      (auto dest: startup_configured intro: faithful_cli_read)
  moreover have "program env cmd = andthen startup (\<lambda>_ w1. cli env cmd (config_read w1))"
    by (rule ext) (rule program_unhandled)
  ultimately show ?thesis by simp
qed






section \<open>Reconfiguring\<close>

lemma program_configure:
  "program (env :: ('e, 'f, 'v) env) (Configure (Some i) (Some a) (Some k) (Some v)) w =
     andthen startup (\<lambda>_ w1. configure i a k v (config_read w1)) w"
  unfolding program_unhandled
  by (simp add: cli_def option_or_prompt_def andthen_def)



end
